theory Spec2Isabelle
  imports Complex_Main
begin

section \<open>Failures\<close>

text \<open>
  Every way in which the embedded functions leave their normal path is a value:
  a failed \<^verbatim>\<open>DRAKE_DEMAND\<close> (the program aborts), a failed \<^verbatim>\<open>DRAKE_ASSERT\<close>
  (aborts in a debug build), a thrown \<^verbatim>\<open>std::runtime_error\<close> with its text, and
  \<^verbatim>\<open>DRAKE_UNREACHABLE\<close>.
\<close>

datatype error = DemandFailed | AssertFailed | RuntimeError string | Unreachable

section \<open>MeshFieldLinear\<close>

text \<open>
  The scalar type \<^verbatim>\<open>T\<close> is instantiated with the reals, so that arithmetic is exact.
  \<^verbatim>\<open>Vector3<T>\<close> is a triple and \<open>dot\<close> is Eigen's \<^verbatim>\<open>.dot()\<close>.
\<close>

type_synonym Vector3 = "real \<times> real \<times> real"

fun dot :: "Vector3 \<Rightarrow> Vector3 \<Rightarrow> real" where
  "dot (x1, y1, z1) (x2, y2, z2) = x1 * x2 + y1 * y2 + z1 * z2"

text \<open>
  The template parameter \<^verbatim>\<open>MeshType\<close> (a surface or a volume mesh) is not part of the
  field's source file. It is taken as a parameter: the record below holds exactly the
  members that MeshFieldLinear calls. \<open>element_vertex m e i\<close> is
  \<^verbatim>\<open>m.element(e).vertex(i)\<close>, and \<open>CalcGradientVectorOfLinearField\<close> may throw
  (the constructor's documentation: a poor quality element can cause a throw).
\<close>

record MeshType =
  num_vertices :: nat
  num_elements :: nat
  kVertexPerElement :: nat
  element_vertex :: "nat \<Rightarrow> nat \<Rightarrow> nat"
  vertex :: "nat \<Rightarrow> Vector3"
  CalcGradientVectorOfLinearField :: "real list \<Rightarrow> nat \<Rightarrow> error + Vector3"
  CalcBarycentric :: "Vector3 \<Rightarrow> nat \<Rightarrow> real list"

text \<open>
  The data members \<^verbatim>\<open>mesh_\<close>, \<^verbatim>\<open>values_\<close>, \<^verbatim>\<open>gradients_\<close> and
  \<^verbatim>\<open>values_at_Mo_\<close>; the trailing underscore is written as a prime. The mesh is held
  by value, so it is never null. The deprecated \<^verbatim>\<open>name_\<close> is left out.
\<close>

record MeshFieldLinear =
  mesh' :: MeshType
  values' :: "real list"
  gradients' :: "Vector3 list"
  values_at_Mo' :: "real list"

definition CalcGradientVector :: "MeshFieldLinear \<Rightarrow> nat \<Rightarrow> error + Vector3" where
  "CalcGradientVector f e =
     (let u = map (\<lambda>i. values' f ! element_vertex (mesh' f) e i)
                  [0..<kVertexPerElement (mesh' f)]
      in CalcGradientVectorOfLinearField (mesh' f) u e)"

text \<open>The loop of \<^verbatim>\<open>CalcGradientField\<close>: one \<^verbatim>\<open>push_back\<close> per element, left by a throw.\<close>

fun CalcGradientField_loop :: "MeshFieldLinear \<Rightarrow> nat list \<Rightarrow> error + MeshFieldLinear" where
  "CalcGradientField_loop f [] = Inr f"
| "CalcGradientField_loop f (e # es) =
     (case CalcGradientVector f e of
        Inl err \<Rightarrow> Inl err
      | Inr g \<Rightarrow> CalcGradientField_loop (f\<lparr>gradients' := gradients' f @ [g]\<rparr>) es)"

definition CalcGradientField :: "MeshFieldLinear \<Rightarrow> error + MeshFieldLinear" where
  "CalcGradientField f =
     CalcGradientField_loop (f\<lparr>gradients' := []\<rparr>) [0..<num_elements (mesh' f)]"

definition CalcValueAtMeshOrigin :: "MeshFieldLinear \<Rightarrow> nat \<Rightarrow> error + real" where
  "CalcValueAtMeshOrigin f e =
     (if \<not> e < length (gradients' f) then Inl DemandFailed
      else let v0 = element_vertex (mesh' f) e 0;
               p_MV0 = vertex (mesh' f) v0
           in Inr (values' f ! v0 - dot (gradients' f ! e) p_MV0))"

fun CalcValueAtMeshOrigin_loop :: "MeshFieldLinear \<Rightarrow> nat list \<Rightarrow> error + MeshFieldLinear" where
  "CalcValueAtMeshOrigin_loop f [] = Inr f"
| "CalcValueAtMeshOrigin_loop f (e # es) =
     (case CalcValueAtMeshOrigin f e of
        Inl err \<Rightarrow> Inl err
      | Inr x \<Rightarrow>
          CalcValueAtMeshOrigin_loop (f\<lparr>values_at_Mo' := values_at_Mo' f @ [x]\<rparr>) es)"

definition CalcValueAtMeshOriginForAllElements :: "MeshFieldLinear \<Rightarrow> error + MeshFieldLinear" where
  "CalcValueAtMeshOriginForAllElements f =
     CalcValueAtMeshOrigin_loop (f\<lparr>values_at_Mo' := []\<rparr>) [0..<num_elements (mesh' f)]"

text \<open>
  The constructor \<^verbatim>\<open>MeshFieldLinear(values, mesh, calculate_gradient)\<close> with its four
  demands.
\<close>

definition MeshFieldLinear_ctor :: "real list \<Rightarrow> MeshType \<Rightarrow> bool \<Rightarrow> error + MeshFieldLinear" where
  "MeshFieldLinear_ctor vals msh calculate_gradient =
     (let f0 = \<lparr>mesh' = msh, values' = vals, gradients' = [], values_at_Mo' = []\<rparr> in
      if length vals \<noteq> num_vertices msh then Inl DemandFailed
      else if calculate_gradient then
        (case CalcGradientField f0 of
           Inl err \<Rightarrow> Inl err
         | Inr f1 \<Rightarrow>
            (case CalcValueAtMeshOriginForAllElements f1 of
               Inl err \<Rightarrow> Inl err
             | Inr f2 \<Rightarrow>
                 if num_elements msh \<noteq> length (gradients' f2) then Inl DemandFailed
                 else if num_elements msh \<noteq> length (values_at_Mo' f2) then Inl DemandFailed
                 else Inr f2))
      else Inr f0)"

definition EvaluateAtVertex :: "MeshFieldLinear \<Rightarrow> nat \<Rightarrow> real" where
  "EvaluateAtVertex f v = values' f ! v"

definition Evaluate :: "MeshFieldLinear \<Rightarrow> nat \<Rightarrow> real list \<Rightarrow> real" where
  "Evaluate f e b =
     fold (\<lambda>i val. val + b ! i * values' f ! element_vertex (mesh' f) e i)
          [1..<kVertexPerElement (mesh' f)]
          (b ! 0 * values' f ! element_vertex (mesh' f) e 0)"

definition EvaluateCartesian :: "MeshFieldLinear \<Rightarrow> nat \<Rightarrow> Vector3 \<Rightarrow> error + real" where
  "EvaluateCartesian f e p_MQ =
     (if length (gradients' f) = 0
      then Inr (Evaluate f e (CalcBarycentric (mesh' f) p_MQ e))
      else if \<not> e < length (gradients' f) then Inl AssertFailed
      else if \<not> e < length (values_at_Mo' f) then Inl AssertFailed
      else Inr (dot (gradients' f ! e) p_MQ + values_at_Mo' f ! e))"

definition EvaluateGradient :: "MeshFieldLinear \<Rightarrow> nat \<Rightarrow> error + Vector3" where
  "EvaluateGradient f e =
     (if length (gradients' f) = 0
      then Inl (RuntimeError ''Gradient vector was not calculated.'')
      else Inr (gradients' f ! e))"

text \<open>
  \<^verbatim>\<open>math::RigidTransform\<close> is not part of the field's source file either. It is
  taken as a parameter: its rotation matrix, as the triple of its rows, and its
  translation. \<open>rotate R g\<close> is the product \<^verbatim>\<open>R * g\<close>.
\<close>

type_synonym Matrix3 = "Vector3 \<times> Vector3 \<times> Vector3"

record RigidTransform =
  rotation :: Matrix3
  translation :: Vector3

fun rotate :: "Matrix3 \<Rightarrow> Vector3 \<Rightarrow> Vector3" where
  "rotate (r1, r2, r3) g = (dot r1 g, dot r2 g, dot r3 g)"

text \<open>
  \<^verbatim>\<open>TransformGradients(X_NM)\<close>: every gradient is replaced by its rotation; no other
  member is written.
\<close>

definition TransformGradients :: "RigidTransform \<Rightarrow> MeshFieldLinear \<Rightarrow> MeshFieldLinear" where
  "TransformGradients X_NM f =
     f\<lparr>gradients' := map (\<lambda>grad. rotate (rotation X_NM) grad) (gradients' f)\<rparr>"

text \<open>
  For the proofs: the number that \<open>CalcValueAtMeshOrigin\<close> computes for element \<open>e\<close>
  once its demand holds.
\<close>

definition value_at_origin :: "MeshFieldLinear \<Rightarrow> nat \<Rightarrow> real" where
  "value_at_origin f e =
     values' f ! element_vertex (mesh' f) e 0
       - dot (gradients' f ! e) (vertex (mesh' f) (element_vertex (mesh' f) e 0))"

text \<open>
  A concrete mesh for the examples: one triangle with vertices \<open>(1,1,0)\<close>, \<open>(2,1,0)\<close>,
  \<open>(1,2,0)\<close>, whose gradient of a linear field with vertex values \<open>u\<close> is
  \<open>(u\<^sub>1 - u\<^sub>0, u\<^sub>2 - u\<^sub>0, 0)\<close>.
\<close>

definition tri_mesh :: MeshType where
  "tri_mesh = \<lparr>num_vertices = 3, num_elements = 1, kVertexPerElement = 3,
     element_vertex = (\<lambda>e i. i),
     vertex = (\<lambda>n. if n = 0 then (1, 1, 0) else if n = 1 then (2, 1, 0) else (1, 2, 0)),
     CalcGradientVectorOfLinearField = (\<lambda>u e. Inr (u ! 1 - u ! 0, u ! 2 - u ! 0, 0)),
     CalcBarycentric = (\<lambda>p e. case p of (x, y, z) \<Rightarrow> [3 - x - y, x - 1, y - 1])\<rparr>"

definition tri_field :: MeshFieldLinear where
  "tri_field = \<lparr>mesh' = tri_mesh, values' = [5, 7, 4], gradients' = [(2, - 1, 0)],
     values_at_Mo' = [4]\<rparr>"

definition tri_field_no_gradient :: MeshFieldLinear where
  "tri_field_no_gradient = \<lparr>mesh' = tri_mesh, values' = [5, 7, 4], gradients' = [],
     values_at_Mo' = []\<rparr>"

text \<open>
  Two changes of frame for the examples: a quarter turn about the z axis, and the
  translation by \<open>(1,0,0)\<close> together with the triangle mesh after that translation.
\<close>

definition quarter_turn :: RigidTransform where
  "quarter_turn = \<lparr>rotation = ((0, - 1, 0), (1, 0, 0), (0, 0, 1)), translation = (0, 0, 0)\<rparr>"

definition shift_x :: RigidTransform where
  "shift_x = \<lparr>rotation = ((1, 0, 0), (0, 1, 0), (0, 0, 1)), translation = (1, 0, 0)\<rparr>"

definition tri_mesh_shifted :: MeshType where
  "tri_mesh_shifted = \<lparr>num_vertices = 3, num_elements = 1, kVertexPerElement = 3,
     element_vertex = (\<lambda>e i. i),
     vertex = (\<lambda>n. if n = 0 then (2, 1, 0) else if n = 1 then (3, 1, 0) else (2, 2, 0)),
     CalcGradientVectorOfLinearField = (\<lambda>u e. Inr (u ! 1 - u ! 0, u ! 2 - u ! 0, 0)),
     CalcBarycentric = (\<lambda>p e. case p of (x, y, z) \<Rightarrow> [4 - x - y, x - 2, y - 1])\<rparr>"

section \<open>YAML merge keys\<close>

text \<open>
  A \<^verbatim>\<open>YAML::Node\<close> of the yaml-cpp library, as a value: the five node types of
  \<^verbatim>\<open>YAML::NodeType\<close>. A mapping is the list of its key-value pairs in order, as
  yaml-cpp stores it; keys are nodes, and nothing forbids two pairs with the same key.
\<close>

datatype Node = Undefined | Null | Scalar string | Sequence "Node list" | Map "(Node \<times> Node) list"

datatype NodeType = TUndefined | TNull | TScalar | TSequence | TMap

fun Type :: "Node \<Rightarrow> NodeType" where
  "Type Undefined = TUndefined"
| "Type Null = TNull"
| "Type (Scalar s) = TScalar"
| "Type (Sequence xs) = TSequence"
| "Type (Map kvs) = TMap"

text \<open>\<^verbatim>\<open>!node\<close> is \<open>\<not> IsDefined node\<close>.\<close>

definition IsDefined :: "Node \<Rightarrow> bool" where
  "IsDefined n = (n \<noteq> Undefined)"

text \<open>\<^verbatim>\<open>key.Scalar()\<close>: the text of a scalar, the empty string for every other node.\<close>

fun Scalar_of :: "Node \<Rightarrow> string" where
  "Scalar_of (Scalar s) = s"
| "Scalar_of n = []"

text \<open>
  The library's comparison of a stored key with a string: the key must be a scalar with
  that text.
\<close>

fun key_equals :: "string \<Rightarrow> Node \<Rightarrow> bool" where
  "key_equals s (Scalar t) = (t = s)"
| "key_equals s n = False"

text \<open>
  \<^verbatim>\<open>node[s]\<close> on a mapping: the value of the first pair whose key equals \<open>s\<close>, an
  undefined node when there is none. (On a missing key the library parks a pair with an
  undefined value in the mapping; such a pair is skipped by iteration and reads as
  undefined, so the model gives \<open>Undefined\<close> and stores nothing.)
\<close>

fun map_get :: "(Node \<times> Node) list \<Rightarrow> string \<Rightarrow> Node" where
  "map_get [] s = Undefined"
| "map_get ((k, x) # kvs) s = (if key_equals s k then x else map_get kvs s)"

text \<open>\<^verbatim>\<open>node.remove(s)\<close>: erases the first pair whose key equals \<open>s\<close>.\<close>

fun map_remove :: "(Node \<times> Node) list \<Rightarrow> string \<Rightarrow> (Node \<times> Node) list" where
  "map_remove [] s = []"
| "map_remove ((k, x) # kvs) s = (if key_equals s k then kvs else (k, x) # map_remove kvs s)"

text \<open>
  \<^verbatim>\<open>entry = value\<close> for an undefined \<open>entry\<close> obtained from \<^verbatim>\<open>node[s]\<close>: the
  assignment writes through the back-pointer into the mapping, where the pair for \<open>s\<close>
  now carries the value; a pair that was not there is added at the end.
\<close>

fun map_assign :: "(Node \<times> Node) list \<Rightarrow> string \<Rightarrow> Node \<Rightarrow> (Node \<times> Node) list" where
  "map_assign [] s y = [(Scalar s, y)]"
| "map_assign ((k, x) # kvs) s y =
     (if key_equals s k then (k, y) # kvs else (k, x) # map_assign kvs s y)"

text \<open>Iteration over a mapping visits the pairs whose key and value are defined.\<close>

definition map_items :: "(Node \<times> Node) list \<Rightarrow> (Node \<times> Node) list" where
  "map_items kvs = filter (\<lambda>(k, x). IsDefined k \<and> IsDefined x) kvs"

fun CopyWithMergeKeySemantics_loop ::
  "(Node \<times> Node) list \<Rightarrow> (Node \<times> Node) list \<Rightarrow> (Node \<times> Node) list" where
  "CopyWithMergeKeySemantics_loop [] destination = destination"
| "CopyWithMergeKeySemantics_loop ((key, val) # rest) destination =
     (let entry = map_get destination (Scalar_of key) in
      CopyWithMergeKeySemantics_loop rest
        (if \<not> IsDefined entry then map_assign destination (Scalar_of key) val
         else destination))"

definition CopyWithMergeKeySemantics ::
  "(Node \<times> Node) list \<Rightarrow> (Node \<times> Node) list \<Rightarrow> (Node \<times> Node) list" where
  "CopyWithMergeKeySemantics source destination =
     CopyWithMergeKeySemantics_loop (map_items source) destination"

text \<open>
  The loop of the \<^verbatim>\<open>Sequence\<close> case: an item that is not a mapping makes
  \<^verbatim>\<open>ReportError\<close> throw.
\<close>

fun RewriteMergeKeys_sequence ::
  "Node list \<Rightarrow> (Node \<times> Node) list \<Rightarrow> error + (Node \<times> Node) list" where
  "RewriteMergeKeys_sequence [] node = Inr node"
| "RewriteMergeKeys_sequence (merge_key_item # items) node =
     (case merge_key_item of
        Map source \<Rightarrow>
          RewriteMergeKeys_sequence items (CopyWithMergeKeySemantics source node)
      | _ \<Rightarrow> Inl (RuntimeError
                 ''has invalid merge key type (Sequence-of-non-Mapping) within''))"

text \<open>
  \<^verbatim>\<open>YamlReadArchive::RewriteMergeKeys(node)\<close>. The node is changed in place in the
  source; the model returns the node as it is after a normal return. Of the text that
  \<^verbatim>\<open>ReportError\<close> throws only the note is kept.
\<close>

definition RewriteMergeKeys :: "Node \<Rightarrow> error + Node" where
  "RewriteMergeKeys node =
     (case node of
        Map kvs \<Rightarrow>
          (let merge_key = map_get kvs ''<<'' in
           if \<not> IsDefined merge_key then Inr node
           else
             let kvs1 = map_remove kvs ''<<'' in
             (case merge_key of
                Map source \<Rightarrow> Inr (Map (CopyWithMergeKeySemantics source kvs1))
              | Sequence items \<Rightarrow>
                  (case RewriteMergeKeys_sequence items kvs1 of
                     Inl err \<Rightarrow> Inl err
                   | Inr kvs2 \<Rightarrow> Inr (Map kvs2))
              | Scalar s \<Rightarrow> Inl (RuntimeError ''has invalid merge key type (Scalar) within'')
              | Null \<Rightarrow> Inl (RuntimeError ''has invalid merge key type (Null) within'')
              | Undefined \<Rightarrow> Inl Unreachable))
      | _ \<Rightarrow> Inl DemandFailed)"

text \<open>
  For the statements: the pairs that a merge value contributes, in the order in which
  they are visited (\<open>None\<close> unless the value is a mapping or a sequence of mappings),
  and the first value that a list of pairs holds for a key text.
\<close>

fun merged_items :: "Node \<Rightarrow> (Node \<times> Node) list option" where
  "merged_items (Map source) = Some (map_items source)"
| "merged_items (Sequence []) = Some []"
| "merged_items (Sequence (Map source # items)) =
     (case merged_items (Sequence items) of
        None \<Rightarrow> None
      | Some ps \<Rightarrow> Some (map_items source @ ps))"
| "merged_items n = None"

fun first_merged :: "(Node \<times> Node) list \<Rightarrow> string \<Rightarrow> Node" where
  "first_merged [] s = Undefined"
| "first_merged ((k, x) # ps) s = (if Scalar_of k = s then x else first_merged ps s)"

text \<open>
  For the statements: every pair of \<open>d\<close> is still in \<open>d'\<close> at its place, with its key
  (scalar or not) and, where the value is defined, with its value.
\<close>

definition entries_kept :: "(Node \<times> Node) list \<Rightarrow> (Node \<times> Node) list \<Rightarrow> bool" where
  "entries_kept d d' \<longleftrightarrow>
     length d \<le> length d' \<and>
     (\<forall>i < length d. fst (d' ! i) = fst (d ! i) \<and>
        (IsDefined (snd (d ! i)) \<longrightarrow> snd (d' ! i) = snd (d ! i)))"

section \<open>Dense vectors and matrices over the reals\<close>

text \<open>
  Modelled from the spec: the linear algebra under the contact layer, whose source
  (the Schur complement) is missing. The specification asks for exact arithmetic, so
  the entries are reals; a vector is the list of its entries, a matrix the list of its
  rows.
\<close>

type_synonym vec = "real list"
type_synonym mat = "real list list"

definition vadd :: "vec \<Rightarrow> vec \<Rightarrow> vec" where
  "vadd x y = map2 (+) x y"

definition vsub :: "vec \<Rightarrow> vec \<Rightarrow> vec" where
  "vsub x y = map2 (-) x y"

definition inner_prod :: "vec \<Rightarrow> vec \<Rightarrow> real" where
  "inner_prod x y = sum_list (map2 (*) x y)"

definition mat_vec :: "mat \<Rightarrow> vec \<Rightarrow> vec" where
  "mat_vec M x = map (\<lambda>row. inner_prod row x) M"

text \<open>\<open>is_mat n m M\<close>: the matrix has \<open>n\<close> rows of \<open>m\<close> entries each.\<close>

definition is_mat :: "nat \<Rightarrow> nat \<Rightarrow> mat \<Rightarrow> bool" where
  "is_mat n m M \<longleftrightarrow> length M = n \<and> list_all (\<lambda>row. length row = m) M"

text \<open>
  The transpose of a matrix with \<open>m\<close> columns, and the product with a matrix of \<open>p\<close>
  columns. The column count is an argument because a matrix without rows does not show
  it.
\<close>

definition mat_transpose :: "nat \<Rightarrow> mat \<Rightarrow> mat" where
  "mat_transpose m M = map (\<lambda>j. map (\<lambda>row. row ! j) M) [0..<m]"

definition mat_mul :: "nat \<Rightarrow> mat \<Rightarrow> mat \<Rightarrow> mat" where
  "mat_mul p M N = map (\<lambda>row. map (inner_prod row) (mat_transpose p N)) M"

definition mat_sub :: "mat \<Rightarrow> mat \<Rightarrow> mat" where
  "mat_sub M N = map2 vsub M N"

definition mat_identity :: "nat \<Rightarrow> mat" where
  "mat_identity n = map (\<lambda>i. map (\<lambda>j. if i = j then 1 else 0) [0..<n]) [0..<n]"

section \<open>Schur complement\<close>

text \<open>
  Modelled from the spec: the combined system
  \<open>[A B; B\<^sup>t C] [x_elim; x_ret] = [r_elim; r_ret]\<close> of the contact layer (the source of
  SchurComplement is missing), as one matrix over the eliminated and the retained
  unknowns. \<open>A\<close> is \<open>n \<times> n\<close>, \<open>B\<close> is \<open>n \<times> m\<close> and \<open>C\<close> is \<open>m \<times> m\<close>.
\<close>

definition block_matrix :: "nat \<Rightarrow> mat \<Rightarrow> mat \<Rightarrow> mat \<Rightarrow> mat" where
  "block_matrix m A B C = map2 (@) A B @ map2 (@) (mat_transpose m B) C"

text \<open>
  Modelled from the spec: \<open>A\<^sup>-\<^sup>1\<close>. The specification does not say how the inverse of
  the elimination block is obtained, so it is a matrix \<open>Ainv\<close> that multiplies with \<open>A\<close>
  to the identity from both sides.
\<close>

definition is_inverse :: "nat \<Rightarrow> mat \<Rightarrow> mat \<Rightarrow> bool" where
  "is_inverse n A Ainv \<longleftrightarrow>
     is_mat n n A \<and> is_mat n n Ainv \<and>
     mat_mul n Ainv A = mat_identity n \<and> mat_mul n A Ainv = mat_identity n"

text \<open>Modelled from the spec: the reduced operator \<open>C - B\<^sup>t A\<^sup>-\<^sup>1 B\<close>.\<close>

definition reduced_operator :: "nat \<Rightarrow> mat \<Rightarrow> mat \<Rightarrow> mat \<Rightarrow> mat" where
  "reduced_operator m Ainv B C =
     mat_sub C (mat_mul m (mat_transpose m B) (mat_mul m Ainv B))"

text \<open>Modelled from the spec: the reduced right-hand side \<open>r_ret - B\<^sup>t A\<^sup>-\<^sup>1 r_elim\<close>.\<close>

definition reduced_rhs :: "nat \<Rightarrow> mat \<Rightarrow> mat \<Rightarrow> vec \<Rightarrow> vec \<Rightarrow> vec" where
  "reduced_rhs m Ainv B r_elim r_ret =
     vsub r_ret (mat_vec (mat_transpose m B) (mat_vec Ainv r_elim))"

text \<open>
  Modelled from the spec: the back-substitution \<open>x_elim = A\<^sup>-\<^sup>1(r_elim - B x_ret)\<close>.
\<close>

definition back_substitute :: "mat \<Rightarrow> mat \<Rightarrow> vec \<Rightarrow> vec \<Rightarrow> vec" where
  "back_substitute Ainv B r_elim x_ret = mat_vec Ainv (vsub r_elim (mat_vec B x_ret))"

text \<open>
  A system with two eliminated and two retained unknowns for the examples:
  \<open>A = [2 1; 1 2]\<close> is symmetric positive definite with the inverse \<open>(1/3)[2 -1; -1 2]\<close>.
\<close>

definition example_A :: mat where
  "example_A = [[2, 1], [1, 2]]"

definition example_Ainv :: mat where
  "example_Ainv = [[2 / 3, - 1 / 3], [- 1 / 3, 2 / 3]]"

definition example_B :: mat where
  "example_B = [[1, 0], [1, 1]]"

definition example_C :: mat where
  "example_C = [[3, 1], [1, 4]]"

section \<open>MeshFieldLinear: evaluation at a vertex and gradients\<close>

lemma CalcGradientVector_gradients_update [simp]:
  "CalcGradientVector (f\<lparr>gradients' := gs\<rparr>) e = CalcGradientVector f e"
  by (simp add: CalcGradientVector_def)

lemma CalcGradientField_loop_result:
  "CalcGradientField_loop f es = Inr f' \<Longrightarrow>
     mesh' f' = mesh' f \<and> values' f' = values' f \<and> values_at_Mo' f' = values_at_Mo' f \<and>
     (\<exists>gs. gradients' f' = gradients' f @ gs \<and> length gs = length es \<and>
       (\<forall>i < length es. CalcGradientVector f (es ! i) = Inr (gs ! i)))"
proof (induction es arbitrary: f)
  case Nil
  then show ?case by simp
next
  case (Cons e es)
  from Cons.prems obtain g where g: "CalcGradientVector f e = Inr g"
    and rest: "CalcGradientField_loop (f\<lparr>gradients' := gradients' f @ [g]\<rparr>) es = Inr f'"
    by (auto split: sum.splits)
  from Cons.IH [OF rest] obtain gs where
    keep: "mesh' f' = mesh' f" "values' f' = values' f" "values_at_Mo' f' = values_at_Mo' f"
    and gs: "gradients' f' = (gradients' f @ [g]) @ gs" "length gs = length es"
      "\<forall>i < length es. CalcGradientVector f (es ! i) = Inr (gs ! i)"
    by auto
  have "\<forall>i < length (e # es). CalcGradientVector f ((e # es) ! i) = Inr ((g # gs) ! i)"
    using g gs(3) by (auto simp: nth_Cons split: nat.splits)
  moreover have "gradients' f' = gradients' f @ (g # gs)" "length (g # gs) = length (e # es)"
    using gs by simp_all
  ultimately show ?case using keep by blast
qed

lemma CalcValueAtMeshOrigin_loop_result:
  "CalcValueAtMeshOrigin_loop f es = Inr f' \<Longrightarrow>
     mesh' f' = mesh' f \<and> values' f' = values' f \<and> gradients' f' = gradients' f \<and>
     values_at_Mo' f' = values_at_Mo' f @ map (value_at_origin f) es"
proof (induction es arbitrary: f)
  case Nil
  then show ?case by simp
next
  case (Cons e es)
  from Cons.prems obtain x where x: "CalcValueAtMeshOrigin f e = Inr x"
    and rest:
      "CalcValueAtMeshOrigin_loop (f\<lparr>values_at_Mo' := values_at_Mo' f @ [x]\<rparr>) es = Inr f'"
    by (auto split: sum.splits)
  have xv: "x = value_at_origin f e"
    using x by (auto simp: CalcValueAtMeshOrigin_def value_at_origin_def Let_def split: if_splits)
  have same: "value_at_origin (f\<lparr>values_at_Mo' := ys\<rparr>) = value_at_origin f" for ys
    by (rule ext) (simp add: value_at_origin_def)
  from Cons.IH [OF rest] show ?case
    by (simp add: xv same)
qed

text \<open>
  What a constructor call with \<open>calculate_gradient = true\<close> leaves behind when it
  returns: one gradient and one origin value per element, the gradient being the one the
  mesh computed and the origin value \<open>values_[v0] - gradients_[e] \<cdot> p_MV0\<close>.
\<close>

lemma MeshFieldLinear_ctor_gradient:
  assumes "MeshFieldLinear_ctor vals msh True = Inr f"
  shows "mesh' f = msh \<and> values' f = vals \<and>
         length (gradients' f) = num_elements msh \<and>
         length (values_at_Mo' f) = num_elements msh \<and>
         (\<forall>e < num_elements msh.
            CalcGradientVector f e = Inr (gradients' f ! e) \<and>
            values_at_Mo' f ! e = value_at_origin f e)"
proof -
  let ?f0 = "\<lparr>mesh' = msh, values' = vals, gradients' = [], values_at_Mo' = []\<rparr>"
  from assms obtain f1 where
    f1: "CalcGradientField ?f0 = Inr f1"
    and f2: "CalcValueAtMeshOriginForAllElements f1 = Inr f"
    by (auto simp: MeshFieldLinear_ctor_def Let_def split: if_splits sum.splits)
  from f1 have l1: "CalcGradientField_loop ?f0 [0..<num_elements msh] = Inr f1"
    by (simp add: CalcGradientField_def)
  from CalcGradientField_loop_result [OF l1] obtain gs where
    k1: "mesh' f1 = msh" "values' f1 = vals"
    and g1: "gradients' f1 = gs" "length gs = num_elements msh"
      "\<forall>i < num_elements msh. CalcGradientVector ?f0 i = Inr (gs ! i)"
    by auto
  from f2 k1 have l2:
    "CalcValueAtMeshOrigin_loop (f1\<lparr>values_at_Mo' := []\<rparr>) [0..<num_elements msh] = Inr f"
    by (simp add: CalcValueAtMeshOriginForAllElements_def)
  from CalcValueAtMeshOrigin_loop_result [OF l2] have
    k2: "mesh' f = msh" "values' f = vals" "gradients' f = gs"
    and v2: "values_at_Mo' f =
      map (value_at_origin (f1\<lparr>values_at_Mo' := []\<rparr>)) [0..<num_elements msh]"
    using k1 g1 by simp_all
  have same: "value_at_origin (f1\<lparr>values_at_Mo' := []\<rparr>) e = value_at_origin f e" for e
    using k1 k2 g1 by (simp add: value_at_origin_def)
  have cg: "CalcGradientVector f e = CalcGradientVector ?f0 e" for e
    using k2 by (simp add: CalcGradientVector_def)
  show ?thesis
    using k2 g1 v2 by (simp add: same cg)
qed

lemma MeshFieldLinear_ctor_no_gradient:
  assumes "MeshFieldLinear_ctor vals msh False = Inr f"
  shows "gradients' f = []"
  using assms by (auto simp: MeshFieldLinear_ctor_def Let_def split: if_splits)

lemma tri_field_ctor: "MeshFieldLinear_ctor [5, 7, 4] tri_mesh True = Inr tri_field"
  by (simp add: MeshFieldLinear_ctor_def CalcGradientField_def CalcGradientVector_def
      CalcValueAtMeshOriginForAllElements_def CalcValueAtMeshOrigin_def tri_mesh_def
      tri_field_def upt_rec numeral_nat)

lemma tri_field_no_gradient_ctor:
  "MeshFieldLinear_ctor [5, 7, 4] tri_mesh False = Inr tri_field_no_gradient"
  by (simp add: MeshFieldLinear_ctor_def tri_mesh_def tri_field_no_gradient_def)

text \<open>
  The constructor establishes the vertex identity: for a field as it returns it for
  \<open>calculate_gradient = true\<close> and for every element \<open>e\<close> of the mesh,
  \<open>EvaluateCartesian\<close> at the position of the element's vertex 0 returns the field
  value stored for that vertex, since the cached origin value is
  \<open>values_[v0] - gradients_[e] \<cdot> p_MV0\<close> and the dot product cancels.
\<close>

lemma EvaluateCartesian_after_ctor:
  assumes "MeshFieldLinear_ctor vals msh True = Inr f"
    and "e < num_elements msh"
  shows "EvaluateCartesian f e (vertex msh (element_vertex msh e 0))
           = Inr (EvaluateAtVertex f (element_vertex msh e 0)) \<and>
         EvaluateAtVertex f (element_vertex msh e 0) = vals ! element_vertex msh e 0"
proof -
  from MeshFieldLinear_ctor_gradient [OF assms(1)] assms(2) have
    len: "length (gradients' f) = num_elements msh" "length (values_at_Mo' f) = num_elements msh"
    and mo: "values_at_Mo' f ! e = value_at_origin f e"
    and keep: "mesh' f = msh" "values' f = vals"
    by simp_all
  show ?thesis
    using len mo keep assms(2)
    by (simp add: EvaluateCartesian_def EvaluateAtVertex_def value_at_origin_def)
qed

text \<open>
  Claim C8: for every MeshFieldLinear constructed with \<open>calculate_gradient = true\<close> and
  every element \<open>e\<close>, \<open>EvaluateCartesian\<close> at the position of the element's vertex 0
  returns exactly the stored field value of that vertex. The code does not keep this.
  \<open>TransformGradients\<close> writes \<open>gradients_\<close> and leaves \<open>values_at_Mo_\<close> as the
  constructor computed it, although that member is documented as the value of the
  element's linear function at the origin of the mesh frame. On the triangle field
  (vertex values 5, 7, 4, built by the constructor with gradients):
  \<^item> after \<open>TransformGradients\<close> with a quarter turn about z, the evaluation at vertex 0
    of the element returns 7, while the value stored for the vertex is 5;
  \<^item> in the use that the documentation of \<open>TransformGradients\<close> asks for, the mesh
    changing its frame in the same way (here the translation by \<open>(1,0,0)\<close>; the field
    refers to its mesh, so it sees the moved vertices), the evaluation at the moved
    vertex 0 returns 7 as well, the stored value being 5.
\<close>

theorem TransformGradients_breaks_vertex_value:
  "MeshFieldLinear_ctor [5, 7, 4] tri_mesh True = Inr tri_field \<and>
   EvaluateCartesian tri_field 0 (vertex tri_mesh (element_vertex tri_mesh 0 0)) = Inr 5 \<and>
   EvaluateAtVertex (TransformGradients quarter_turn tri_field) (element_vertex tri_mesh 0 0) = 5 \<and>
   EvaluateCartesian (TransformGradients quarter_turn tri_field) 0
       (vertex tri_mesh (element_vertex tri_mesh 0 0)) = Inr 7 \<and>
   EvaluateAtVertex (TransformGradients shift_x (tri_field\<lparr>mesh' := tri_mesh_shifted\<rparr>))
       (element_vertex tri_mesh_shifted 0 0) = 5 \<and>
   EvaluateCartesian (TransformGradients shift_x (tri_field\<lparr>mesh' := tri_mesh_shifted\<rparr>)) 0
       (vertex tri_mesh_shifted (element_vertex tri_mesh_shifted 0 0)) = Inr 7"
  using tri_field_ctor
  by (simp add: EvaluateCartesian_def EvaluateAtVertex_def TransformGradients_def
      quarter_turn_def shift_x_def tri_field_def tri_mesh_def tri_mesh_shifted_def)

text \<open>
  Claim C9. For a field that the constructor returned and an element \<open>e\<close> of its mesh,
  \<open>EvaluateGradient e\<close> throws if and only if the field was built with
  \<open>calculate_gradient = false\<close> (its gradient vector is then empty); built with
  \<open>calculate_gradient = true\<close>, it returns the stored gradient of the element, which is
  the vector the mesh computed from the element's vertex values. (Element indices are
  those below \<open>num_elements\<close>; a mesh without elements has none.)
\<close>

theorem EvaluateGradient_throws_iff:
  assumes "MeshFieldLinear_ctor vals msh calculate_gradient = Inr f"
    and "e < num_elements msh"
  shows "((\<exists>err. EvaluateGradient f e = Inl err) \<longleftrightarrow> \<not> calculate_gradient) \<and>
         (calculate_gradient \<longrightarrow>
            EvaluateGradient f e = Inr (gradients' f ! e) \<and>
            CalcGradientVectorOfLinearField msh
              (map (\<lambda>i. vals ! element_vertex msh e i) [0..<kVertexPerElement msh]) e
              = Inr (gradients' f ! e))"
proof (cases calculate_gradient)
  case True
  with MeshFieldLinear_ctor_gradient [of vals msh f] assms have
    "length (gradients' f) = num_elements msh"
    "CalcGradientVector f e = Inr (gradients' f ! e)"
    "mesh' f = msh" "values' f = vals"
    by simp_all
  with True assms(2) show ?thesis
    by (simp add: EvaluateGradient_def CalcGradientVector_def)
next
  case False
  with assms(1) have "gradients' f = []"
    by (simp add: MeshFieldLinear_ctor_no_gradient)
  with False show ?thesis
    by (simp add: EvaluateGradient_def)
qed

text \<open>
  The triangle field built with gradients returns \<open>(2, -1, 0)\<close> for its element; built
  without, the same call throws.
\<close>

theorem EvaluateGradient_throws_iff_witness:
  "MeshFieldLinear_ctor [5, 7, 4] tri_mesh True = Inr tri_field \<and>
   MeshFieldLinear_ctor [5, 7, 4] tri_mesh False = Inr tri_field_no_gradient \<and>
   (0::nat) < num_elements tri_mesh \<and>
   EvaluateGradient tri_field 0 = Inr (2, - 1, 0) \<and>
   (\<exists>err. EvaluateGradient tri_field_no_gradient 0 = Inl err)"
proof -
  have e: "(0::nat) < num_elements tri_mesh"
    by (simp add: tri_mesh_def)
  have g: "gradients' tri_field ! 0 = (2, - 1, 0)"
    by (simp add: tri_field_def)
  from EvaluateGradient_throws_iff [OF tri_field_ctor e]
  have "EvaluateGradient tri_field 0 = Inr (2, - 1, 0)"
    unfolding g by simp
  moreover from EvaluateGradient_throws_iff [OF tri_field_no_gradient_ctor e]
  have "\<exists>err. EvaluateGradient tri_field_no_gradient 0 = Inl err"
    by simp
  ultimately show ?thesis
    using tri_field_ctor tri_field_no_gradient_ctor e by simp
qed

section \<open>YAML merge keys: what the rewrite leaves in the node\<close>

lemma key_equals_iff: "key_equals s k \<longleftrightarrow> k = Scalar s"
  by (cases k) auto

lemma map_get_map_assign:
  "map_get (map_assign d s y) t = (if t = s then y else map_get d t)"
  by (induction d) (auto simp: key_equals_iff)

lemma map_get_map_remove_other:
  "t \<noteq> s \<Longrightarrow> map_get (map_remove d s) t = map_get d t"
  by (induction d) (auto simp: key_equals_iff)

text \<open>
  Lookups after the copy loop: a key text that the destination defines keeps its value,
  every other key text gets the first value that the visited pairs hold for it.
\<close>

lemma map_get_loop:
  assumes "\<forall>(k, x) \<in> set ps. IsDefined x"
  shows "map_get (CopyWithMergeKeySemantics_loop ps d) s =
           (if IsDefined (map_get d s) then map_get d s else first_merged ps s)"
  using assms
proof (induction ps arbitrary: d)
  case Nil
  then show ?case by (simp add: IsDefined_def)
next
  case (Cons p ps)
  obtain k x where p: "p = (k, x)" by (cases p)
  from Cons.prems p have x: "IsDefined x" and rest: "\<forall>(k, x) \<in> set ps. IsDefined x"
    by auto
  show ?case
    using x by (simp add: p Cons.IH [OF rest] map_get_map_assign Let_def)
qed

lemma loop_append:
  "CopyWithMergeKeySemantics_loop (ps @ qs) d =
     CopyWithMergeKeySemantics_loop qs (CopyWithMergeKeySemantics_loop ps d)"
  by (induction ps arbitrary: d) (auto simp: Let_def)

lemma map_items_defined: "\<forall>(k, x) \<in> set (map_items source). IsDefined x"
  by (auto simp: map_items_def)

lemma merged_items_defined:
  "merged_items n = Some ps \<Longrightarrow> \<forall>(k, x) \<in> set ps. IsDefined x"
proof (induction n arbitrary: ps rule: merged_items.induct)
  case (1 source)
  then show ?case using map_items_defined by auto
next
  case 2
  then show ?case by simp
next
  case (3 source items)
  then show ?case using map_items_defined by (fastforce split: option.splits)
qed simp_all

lemma RewriteMergeKeys_sequence_loop:
  "merged_items (Sequence items) = Some ps \<Longrightarrow>
     RewriteMergeKeys_sequence items d = Inr (CopyWithMergeKeySemantics_loop ps d)"
proof (induction items arbitrary: d ps)
  case Nil
  then show ?case by simp
next
  case (Cons item items)
  then show ?case
    by (cases item) (auto simp: CopyWithMergeKeySemantics_def loop_append split: option.splits)
qed

lemma RewriteMergeKeys_loop:
  assumes "merged_items (map_get kvs ''<<'') = Some ps"
  shows "RewriteMergeKeys (Map kvs) =
           Inr (Map (CopyWithMergeKeySemantics_loop ps (map_remove kvs ''<<'')))"
proof (cases "map_get kvs ''<<''")
  case (Map source)
  with assms show ?thesis
    by (simp add: RewriteMergeKeys_def IsDefined_def CopyWithMergeKeySemantics_def)
next
  case (Sequence items)
  with assms show ?thesis
    by (simp add: RewriteMergeKeys_def IsDefined_def RewriteMergeKeys_sequence_loop)
qed (use assms in simp_all)

lemma entries_kept_refl: "entries_kept d d"
  by (simp add: entries_kept_def)

lemma entries_kept_trans:
  "entries_kept d d' \<Longrightarrow> entries_kept d' d'' \<Longrightarrow> entries_kept d d''"
  unfolding entries_kept_def by (metis le_trans less_le_trans)

lemma entries_kept_Cons:
  "entries_kept d d' \<Longrightarrow> entries_kept (p # d) (p # d')"
  by (auto simp: entries_kept_def nth_Cons split: nat.splits)

lemma map_assign_kept:
  "\<not> IsDefined (map_get d s) \<Longrightarrow> entries_kept d (map_assign d s y)"
proof (induction d)
  case Nil
  then show ?case by (simp add: entries_kept_def)
next
  case (Cons p d)
  obtain k x where p: "p = (k, x)" by (cases p)
  show ?case
  proof (cases "key_equals s k")
    case True
    with Cons.prems p have "\<not> IsDefined x" by simp
    with True p show ?thesis
      by (auto simp: entries_kept_def nth_Cons split: nat.splits)
  next
    case False
    with Cons p show ?thesis
      by (simp add: entries_kept_Cons)
  qed
qed

lemma loop_kept: "entries_kept d (CopyWithMergeKeySemantics_loop ps d)"
proof (induction ps arbitrary: d)
  case Nil
  then show ?case by (simp add: entries_kept_refl)
next
  case (Cons p ps)
  obtain k x where p: "p = (k, x)" by (cases p)
  show ?case
  proof (cases "IsDefined (map_get d (Scalar_of k))")
    case True
    then show ?thesis using Cons.IH [of d] by (simp add: p)
  next
    case False
    then show ?thesis
      using entries_kept_trans [OF map_assign_kept [OF False] Cons.IH] by (simp add: p)
  qed
qed

text \<open>
  What the rewrite does on a node whose merge value is a mapping or a sequence of
  mappings, \<open>ps\<close> being the pairs of the merged mapping(s) in the order of the visit: it
  returns normally; the first \<open><<\<close> entry is removed and every other entry of the node
  stays at its place with its key and value; a key text that the node defines keeps its
  value, and every other key text reads as the first value that the merged pairs hold
  under it. For merged pairs with scalar keys this is what the claim says.
\<close>

lemma RewriteMergeKeys_result:
  assumes "merged_items (map_get kvs ''<<'') = Some ps"
  shows "\<exists>kvs'. RewriteMergeKeys (Map kvs) = Inr (Map kvs') \<and>
           entries_kept (map_remove kvs ''<<'') kvs' \<and>
           (\<forall>s. s \<noteq> ''<<'' \<and> IsDefined (map_get kvs s) \<longrightarrow> map_get kvs' s = map_get kvs s) \<and>
           (\<forall>s. map_get kvs' s =
                  (if IsDefined (map_get (map_remove kvs ''<<'') s)
                   then map_get (map_remove kvs ''<<'') s else first_merged ps s))"
proof -
  let ?kvs1 = "map_remove kvs ''<<''"
  let ?kvs' = "CopyWithMergeKeySemantics_loop ps ?kvs1"
  have get: "map_get ?kvs' s =
      (if IsDefined (map_get ?kvs1 s) then map_get ?kvs1 s else first_merged ps s)" for s
    by (rule map_get_loop [OF merged_items_defined [OF assms]])
  have "RewriteMergeKeys (Map kvs) = Inr (Map ?kvs')"
    by (rule RewriteMergeKeys_loop [OF assms])
  moreover have "entries_kept ?kvs1 ?kvs'"
    by (rule loop_kept)
  moreover have "\<forall>s. s \<noteq> ''<<'' \<and> IsDefined (map_get kvs s) \<longrightarrow> map_get ?kvs' s = map_get kvs s"
    by (simp add: get map_get_map_remove_other)
  ultimately show ?thesis using get by blast
qed

text \<open>
  Claim C10: \<open>RewriteMergeKeys\<close> removes the \<open><<\<close> key and copies each key-value pair
  of the merged mapping(s) into the node, keys already present keeping their values.
  The comment of \<open>CopyWithMergeKeySemantics\<close> says the same (copy the key-value pairs,
  do not overwrite existing keys), but the function looks each pair up and stores it
  under \<^verbatim>\<open>key.Scalar()\<close>, which is the empty string for a key that is not a scalar.
  A merged pair with such a key is therefore not copied: for the node
  \<open>{<<: {[k]: v}}\<close>, whose merge value is a mapping with the sequence \<open>[k]\<close> as its key,
  the rewritten node is \<open>{"": v}\<close>. It has no entry with the key \<open>[k]\<close>, and it has the
  key \<open>""\<close>, which neither the node nor the merged mapping had. With the scalar key
  \<open>k\<close> in the same place the pair is copied as it is.
\<close>

theorem RewriteMergeKeys_non_scalar_key:
  "merged_items (map_get [(Scalar ''<<'', Map [(Sequence [Scalar ''k''], Scalar ''v'')])] ''<<'')
     = Some [(Sequence [Scalar ''k''], Scalar ''v'')] \<and>
   RewriteMergeKeys (Map [(Scalar ''<<'', Map [(Sequence [Scalar ''k''], Scalar ''v'')])])
     = Inr (Map [(Scalar [], Scalar ''v'')]) \<and>
   (Sequence [Scalar ''k''], Scalar ''v'') \<notin> set [(Scalar [], Scalar ''v'')] \<and>
   RewriteMergeKeys (Map [(Scalar ''<<'', Map [(Scalar ''k'', Scalar ''v'')])])
     = Inr (Map [(Scalar ''k'', Scalar ''v'')])"
  by (simp add: RewriteMergeKeys_def IsDefined_def CopyWithMergeKeySemantics_def map_items_def)

section \<open>Vectors and matrices: entries and linearity\<close>

lemma length_vadd [simp]: "length (vadd x y) = min (length x) (length y)"
  by (simp add: vadd_def)

lemma length_vsub [simp]: "length (vsub x y) = min (length x) (length y)"
  by (simp add: vsub_def)

lemma nth_vadd [simp]: "i < length x \<Longrightarrow> i < length y \<Longrightarrow> vadd x y ! i = x ! i + y ! i"
  by (simp add: vadd_def)

lemma nth_vsub [simp]: "i < length x \<Longrightarrow> i < length y \<Longrightarrow> vsub x y ! i = x ! i - y ! i"
  by (simp add: vsub_def)

lemma inner_prod_sum:
  "length x = length y \<Longrightarrow> inner_prod x y = (\<Sum>i<length x. x ! i * y ! i)"
proof (induction x y rule: list_induct2)
  case Nil
  then show ?case by (simp add: inner_prod_def)
next
  case (Cons a x b y)
  then show ?case
    by (simp add: inner_prod_def sum.lessThan_Suc_shift del: sum.lessThan_Suc)
qed

lemma is_mat_row: "is_mat n m M \<Longrightarrow> i < n \<Longrightarrow> length (M ! i) = m"
  by (simp add: is_mat_def list_all_length)

lemma is_mat_length: "is_mat n m M \<Longrightarrow> length M = n"
  by (simp add: is_mat_def)

lemma length_mat_vec [simp]: "length (mat_vec M x) = length M"
  by (simp add: mat_vec_def)

lemma nth_mat_vec:
  "is_mat n m M \<Longrightarrow> length x = m \<Longrightarrow> i < n \<Longrightarrow>
     mat_vec M x ! i = (\<Sum>j<m. M ! i ! j * x ! j)"
  by (simp add: mat_vec_def is_mat_def list_all_length inner_prod_sum)

lemma is_mat_transpose: "is_mat m (length M) (mat_transpose m M)"
  by (simp add: is_mat_def mat_transpose_def list_all_length)

lemma nth_mat_transpose:
  "j < m \<Longrightarrow> i < length M \<Longrightarrow> mat_transpose m M ! j ! i = M ! i ! j"
  by (simp add: mat_transpose_def)

lemma is_mat_mul: "is_mat n k M \<Longrightarrow> is_mat n p (mat_mul p M N)"
  by (simp add: is_mat_def mat_mul_def list_all_length mat_transpose_def)

lemma nth_mat_mul:
  assumes "is_mat n k M" "is_mat k p N" "i < n" "j < p"
  shows "mat_mul p M N ! i ! j = (\<Sum>l<k. M ! i ! l * N ! l ! j)"
proof -
  have len: "length (M ! i) = k" "length N = k"
    using assms by (simp_all add: is_mat_row is_mat_length)
  have "mat_mul p M N ! i ! j = inner_prod (M ! i) (mat_transpose p N ! j)"
    using assms by (simp add: mat_mul_def is_mat_def mat_transpose_def)
  also have "\<dots> = (\<Sum>l<k. M ! i ! l * mat_transpose p N ! j ! l)"
    using len assms(4) by (subst inner_prod_sum) (simp_all add: mat_transpose_def)
  also have "\<dots> = (\<Sum>l<k. M ! i ! l * N ! l ! j)"
    using len assms(4) by (intro sum.cong) (simp_all add: nth_mat_transpose)
  finally show ?thesis .
qed

lemma mat_vec_mat_mul:
  assumes "is_mat n k M" "is_mat k p N" "length x = p"
  shows "mat_vec (mat_mul p M N) x = mat_vec M (mat_vec N x)"
proof (rule nth_equalityI)
  show "length (mat_vec (mat_mul p M N) x) = length (mat_vec M (mat_vec N x))"
    by (simp add: mat_mul_def)
next
  fix i assume "i < length (mat_vec (mat_mul p M N) x)"
  then have i: "i < n" using assms(1) by (simp add: mat_mul_def is_mat_def)
  have "mat_vec (mat_mul p M N) x ! i = (\<Sum>j<p. mat_mul p M N ! i ! j * x ! j)"
    using nth_mat_vec [OF is_mat_mul [OF assms(1)] assms(3) i] .
  also have "\<dots> = (\<Sum>j<p. (\<Sum>l<k. M ! i ! l * N ! l ! j) * x ! j)"
    using assms i by (intro sum.cong) (simp_all add: nth_mat_mul)
  also have "\<dots> = (\<Sum>j<p. \<Sum>l<k. M ! i ! l * (N ! l ! j * x ! j))"
    by (simp add: sum_distrib_right mult.assoc)
  also have "\<dots> = (\<Sum>l<k. \<Sum>j<p. M ! i ! l * (N ! l ! j * x ! j))"
    by (rule sum.swap)
  also have "\<dots> = (\<Sum>l<k. M ! i ! l * (\<Sum>j<p. N ! l ! j * x ! j))"
    by (simp add: sum_distrib_left)
  also have "\<dots> = (\<Sum>l<k. M ! i ! l * mat_vec N x ! l)"
    using assms by (intro sum.cong) (simp_all add: nth_mat_vec)
  also have "\<dots> = mat_vec M (mat_vec N x) ! i"
    using nth_mat_vec [OF assms(1) _ i, of "mat_vec N x"] assms(2) by (simp add: is_mat_length)
  finally show "mat_vec (mat_mul p M N) x ! i = mat_vec M (mat_vec N x) ! i" .
qed

lemma is_mat_identity: "is_mat n n (mat_identity n)"
  by (simp add: is_mat_def mat_identity_def list_all_length)

lemma mat_vec_identity:
  assumes "length x = n"
  shows "mat_vec (mat_identity n) x = x"
proof (rule nth_equalityI)
  show "length (mat_vec (mat_identity n) x) = length x"
    using assms by (simp add: mat_identity_def)
next
  fix i assume "i < length (mat_vec (mat_identity n) x)"
  then have i: "i < n" by (simp add: mat_identity_def)
  have "mat_vec (mat_identity n) x ! i = (\<Sum>j<n. mat_identity n ! i ! j * x ! j)"
    using nth_mat_vec [OF is_mat_identity assms i] .
  also have "\<dots> = (\<Sum>j<n. if i = j then x ! j else 0)"
    using i by (intro sum.cong) (simp_all add: mat_identity_def)
  also have "\<dots> = x ! i"
    using i by simp
  finally show "mat_vec (mat_identity n) x ! i = x ! i" .
qed

lemma mat_vec_vsub:
  assumes "is_mat n m M" "length x = m" "length y = m"
  shows "mat_vec M (vsub x y) = vsub (mat_vec M x) (mat_vec M y)"
proof (rule nth_equalityI)
  show "length (mat_vec M (vsub x y)) = length (vsub (mat_vec M x) (mat_vec M y))" by simp
next
  fix i assume "i < length (mat_vec M (vsub x y))"
  then have i: "i < n" using assms(1) by (simp add: is_mat_def)
  have "mat_vec M (vsub x y) ! i = (\<Sum>j<m. M ! i ! j * vsub x y ! j)"
    using nth_mat_vec [OF assms(1) _ i, of "vsub x y"] assms by simp
  also have "\<dots> = (\<Sum>j<m. M ! i ! j * x ! j - M ! i ! j * y ! j)"
    using assms by (intro sum.cong) (simp_all add: algebra_simps)
  also have "\<dots> = mat_vec M x ! i - mat_vec M y ! i"
    using assms i by (simp add: nth_mat_vec sum_subtractf)
  finally show "mat_vec M (vsub x y) ! i = vsub (mat_vec M x) (mat_vec M y) ! i"
    using i assms(1) by (simp add: is_mat_length)
qed

lemma mat_vec_mat_sub:
  assumes "is_mat n m M" "is_mat n m N" "length x = m"
  shows "mat_vec (mat_sub M N) x = vsub (mat_vec M x) (mat_vec N x)"
proof (rule nth_equalityI)
  show "length (mat_vec (mat_sub M N) x) = length (vsub (mat_vec M x) (mat_vec N x))"
    by (simp add: mat_sub_def)
next
  fix i assume "i < length (mat_vec (mat_sub M N) x)"
  then have i: "i < n" using assms(1,2) by (simp add: mat_sub_def is_mat_def)
  have ms: "is_mat n m (mat_sub M N)"
    using assms(1,2) by (simp add: is_mat_def mat_sub_def list_all_length)
  have "mat_vec (mat_sub M N) x ! i = (\<Sum>j<m. mat_sub M N ! i ! j * x ! j)"
    using nth_mat_vec [OF ms assms(3) i] .
  also have "\<dots> = (\<Sum>j<m. M ! i ! j * x ! j - N ! i ! j * x ! j)"
    using assms i
    by (intro sum.cong) (simp_all add: mat_sub_def is_mat_def list_all_length algebra_simps)
  also have "\<dots> = mat_vec M x ! i - mat_vec N x ! i"
    using assms i by (simp add: nth_mat_vec sum_subtractf)
  finally show "mat_vec (mat_sub M N) x ! i = vsub (mat_vec M x) (mat_vec N x) ! i"
    using i assms(1,2) by (simp add: is_mat_length)
qed

lemma inner_prod_append:
  "length r1 = length x1 \<Longrightarrow>
     inner_prod (r1 @ r2) (x1 @ x2) = inner_prod r1 x1 + inner_prod r2 x2"
  by (simp add: inner_prod_def)

lemma mat_vec_block_row:
  assumes "is_mat n k M" "is_mat n l N" "length x = k"
  shows "mat_vec (map2 (@) M N) (x @ y) = vadd (mat_vec M x) (mat_vec N y)"
proof (rule nth_equalityI)
  show "length (mat_vec (map2 (@) M N) (x @ y)) = length (vadd (mat_vec M x) (mat_vec N y))"
    by simp
next
  fix i assume "i < length (mat_vec (map2 (@) M N) (x @ y))"
  then have i: "i < length M" "i < length N" by simp_all
  then have "length (M ! i) = length x"
    using assms by (simp add: is_mat_def list_all_length)
  then show "mat_vec (map2 (@) M N) (x @ y) ! i = vadd (mat_vec M x) (mat_vec N y) ! i"
    using i by (simp add: mat_vec_def inner_prod_append)
qed

lemma mat_vec_block_matrix:
  assumes "is_mat n n A" "is_mat n m B" "is_mat m m C" "length x_elim = n"
  shows "mat_vec (block_matrix m A B C) (x_elim @ x_ret) =
           vadd (mat_vec A x_elim) (mat_vec B x_ret)
           @ vadd (mat_vec (mat_transpose m B) x_elim) (mat_vec C x_ret)"
proof -
  have bt: "is_mat m n (mat_transpose m B)"
    using is_mat_transpose [of m B] assms(2) by (simp add: is_mat_length)
  have "mat_vec (block_matrix m A B C) (x_elim @ x_ret) =
      mat_vec (map2 (@) A B) (x_elim @ x_ret)
      @ mat_vec (map2 (@) (mat_transpose m B) C) (x_elim @ x_ret)"
    by (simp add: block_matrix_def mat_vec_def)
  then show ?thesis
    using mat_vec_block_row [OF assms(1,2,4)] mat_vec_block_row [OF bt assms(3,4)]
    by simp
qed

lemma inverse_apply:
  assumes "is_inverse n A Ainv" "length x = n"
  shows "mat_vec Ainv (mat_vec A x) = x" and "mat_vec A (mat_vec Ainv x) = x"
proof -
  from assms(1) have m: "is_mat n n A" "is_mat n n Ainv"
    and e: "mat_mul n Ainv A = mat_identity n" "mat_mul n A Ainv = mat_identity n"
    by (simp_all add: is_inverse_def)
  show "mat_vec Ainv (mat_vec A x) = x"
    using mat_vec_mat_mul [OF m(2) m(1) assms(2)] e(1) mat_vec_identity [OF assms(2)] by simp
  show "mat_vec A (mat_vec Ainv x) = x"
    using mat_vec_mat_mul [OF m(1) m(2) assms(2)] e(2) mat_vec_identity [OF assms(2)] by simp
qed

section \<open>Schur complement: the reduced system and the full system\<close>

text \<open>
  Claim C1. For every combined system \<open>[A B; B\<^sup>t C] [x_elim; x_ret] = [r_elim; r_ret]\<close>
  whose elimination block \<open>A\<close> has the inverse \<open>A\<^sup>-\<^sup>1\<close> (as every symmetric positive
  definite block has), a pair \<open>(x_elim, x_ret)\<close> solves the full system if and only if
  \<open>x_ret\<close> solves the reduced system with operator \<open>C - B\<^sup>t A\<^sup>-\<^sup>1 B\<close> and right-hand
  side \<open>r_ret - B\<^sup>t A\<^sup>-\<^sup>1 r_elim\<close> and \<open>x_elim\<close> is the back-substitution
  \<open>A\<^sup>-\<^sup>1(r_elim - B x_ret)\<close>. So solving the reduced system and back-substituting yields
  the solutions of the full system and no others, in exact arithmetic.
\<close>

theorem Schur_complement_identity:
  assumes inv: "is_inverse n A Ainv"
    and B: "is_mat n m B" and C: "is_mat m m C"
    and len: "length r_elim = n" "length r_ret = m" "length x_elim = n" "length x_ret = m"
  shows "mat_vec (block_matrix m A B C) (x_elim @ x_ret) = r_elim @ r_ret \<longleftrightarrow>
           mat_vec (reduced_operator m Ainv B C) x_ret = reduced_rhs m Ainv B r_elim r_ret \<and>
           x_elim = back_substitute Ainv B r_elim x_ret"
proof -
  let ?Bt = "mat_transpose m B"
  have A: "is_mat n n A" and Ai: "is_mat n n Ainv"
    using inv by (simp_all add: is_inverse_def)
  have Bt: "is_mat m n ?Bt"
    using is_mat_transpose [of m B] B by (simp add: is_mat_length)
  have AiB: "is_mat n m (mat_mul m Ainv B)"
    by (rule is_mat_mul [OF Ai])
  have BtAiB: "is_mat m m (mat_mul m ?Bt (mat_mul m Ainv B))"
    by (rule is_mat_mul [OF Bt])
  let ?Bx = "mat_vec B x_ret" and ?Cx = "mat_vec C x_ret"
  let ?U = "mat_vec ?Bt (mat_vec Ainv r_elim)"
  let ?W = "mat_vec ?Bt (mat_vec Ainv (mat_vec B x_ret))"
  have lens: "length ?Bx = n" "length ?Cx = m" "length ?U = m" "length ?W = m"
    "length (mat_vec A x_elim) = n" "length (mat_vec ?Bt x_elim) = m"
    "length (mat_vec Ainv r_elim) = n" "length (mat_vec Ainv ?Bx) = n"
    using A Ai B C Bt by (simp_all add: is_mat_length)
  have full: "mat_vec (block_matrix m A B C) (x_elim @ x_ret) = r_elim @ r_ret \<longleftrightarrow>
      vadd (mat_vec A x_elim) ?Bx = r_elim \<and> vadd (mat_vec ?Bt x_elim) ?Cx = r_ret"
    using mat_vec_block_matrix [OF A B C len(3)] lens len by simp
  have S: "mat_vec (reduced_operator m Ainv B C) x_ret = vsub ?Cx ?W"
    unfolding reduced_operator_def
    using mat_vec_mat_sub [OF C BtAiB len(4)] mat_vec_mat_mul [OF Bt AiB len(4)]
      mat_vec_mat_mul [OF Ai B len(4)] by simp
  have bs: "back_substitute Ainv B r_elim x_ret = vsub (mat_vec Ainv r_elim) (mat_vec Ainv ?Bx)"
    unfolding back_substitute_def using mat_vec_vsub [OF Ai len(1) lens(1)] .
  have Bt_back: "mat_vec ?Bt (back_substitute Ainv B r_elim x_ret) = vsub ?U ?W"
    unfolding bs using mat_vec_vsub [OF Bt lens(7) lens(8)] .
  have A_back: "mat_vec A (back_substitute Ainv B r_elim x_ret) = vsub r_elim ?Bx"
    unfolding back_substitute_def
    using inverse_apply(2) [OF inv, of "vsub r_elim ?Bx"] len lens by simp
  show ?thesis
  proof
    assume "mat_vec (block_matrix m A B C) (x_elim @ x_ret) = r_elim @ r_ret"
    with full have e1: "vadd (mat_vec A x_elim) ?Bx = r_elim"
      and e2: "vadd (mat_vec ?Bt x_elim) ?Cx = r_ret" by simp_all
    have "mat_vec A x_elim = vsub r_elim ?Bx"
    proof (rule nth_equalityI)
      show "length (mat_vec A x_elim) = length (vsub r_elim ?Bx)"
        using lens len by simp
    next
      fix i assume "i < length (mat_vec A x_elim)"
      then have i: "i < n" using lens by simp
      from e1 have "vadd (mat_vec A x_elim) ?Bx ! i = r_elim ! i" by simp
      then show "mat_vec A x_elim ! i = vsub r_elim ?Bx ! i"
        using i lens len by simp
    qed
    then have xe: "x_elim = back_substitute Ainv B r_elim x_ret"
      unfolding back_substitute_def using inverse_apply(1) [OF inv len(3)] by simp
    have "vsub ?Cx ?W = vsub r_ret ?U"
    proof (rule nth_equalityI)
      show "length (vsub ?Cx ?W) = length (vsub r_ret ?U)"
        using lens len by simp
    next
      fix i assume "i < length (vsub ?Cx ?W)"
      then have i: "i < m" using lens by simp
      from e2 xe have "vadd (vsub ?U ?W) ?Cx ! i = r_ret ! i"
        using Bt_back by simp
      then show "vsub ?Cx ?W ! i = vsub r_ret ?U ! i"
        using i lens len by simp
    qed
    with S xe show "mat_vec (reduced_operator m Ainv B C) x_ret = reduced_rhs m Ainv B r_elim r_ret \<and>
           x_elim = back_substitute Ainv B r_elim x_ret"
      by (simp add: reduced_rhs_def)
  next
    assume r: "mat_vec (reduced_operator m Ainv B C) x_ret = reduced_rhs m Ainv B r_elim r_ret \<and>
           x_elim = back_substitute Ainv B r_elim x_ret"
    then have xe: "x_elim = back_substitute Ainv B r_elim x_ret"
      and red: "vsub ?Cx ?W = vsub r_ret ?U"
      using S by (simp_all add: reduced_rhs_def)
    have "vadd (mat_vec A x_elim) ?Bx = r_elim"
    proof (rule nth_equalityI)
      show "length (vadd (mat_vec A x_elim) ?Bx) = length r_elim"
        using lens len by simp
    next
      fix i assume "i < length (vadd (mat_vec A x_elim) ?Bx)"
      then have i: "i < n" using lens by simp
      show "vadd (mat_vec A x_elim) ?Bx ! i = r_elim ! i"
        unfolding xe A_back using i lens len by simp
    qed
    moreover have "vadd (mat_vec ?Bt x_elim) ?Cx = r_ret"
    proof (rule nth_equalityI)
      show "length (vadd (mat_vec ?Bt x_elim) ?Cx) = length r_ret"
        using lens len by simp
    next
      fix i assume "i < length (vadd (mat_vec ?Bt x_elim) ?Cx)"
      then have i: "i < m" using lens by simp
      from red have "vsub ?Cx ?W ! i = vsub r_ret ?U ! i" by simp
      then show "vadd (mat_vec ?Bt x_elim) ?Cx ! i = r_ret ! i"
        unfolding xe Bt_back using i lens len by simp
    qed
    ultimately show "mat_vec (block_matrix m A B C) (x_elim @ x_ret) = r_elim @ r_ret"
      using full by simp
  qed
qed

text \<open>
  Two eliminated and two retained unknowns: with \<open>r_elim = (3, 3)\<close> and
  \<open>r_ret = (5, 5)\<close> the reduced system has the operator \<open>[7/3 2/3; 2/3 10/3]\<close> and the
  right-hand side \<open>(3, 4)\<close>, solved by \<open>x_ret = (1, 1)\<close>; back-substitution gives
  \<open>x_elim = (1, 0)\<close>, and the theorem makes the pair a solution of the full system.
\<close>

theorem Schur_complement_identity_witness:
  "is_inverse 2 example_A example_Ainv \<and> is_mat 2 2 example_B \<and> is_mat 2 2 example_C \<and>
   reduced_operator 2 example_Ainv example_B example_C = [[7 / 3, 2 / 3], [2 / 3, 10 / 3]] \<and>
   reduced_rhs 2 example_Ainv example_B [3, 3] [5, 5] = [3, 4] \<and>
   mat_vec (reduced_operator 2 example_Ainv example_B example_C) [1, 1] = [3, 4] \<and>
   back_substitute example_Ainv example_B [3, 3] [1, 1] = [1, 0] \<and>
   mat_vec (block_matrix 2 example_A example_B example_C) ([1, 0] @ [1, 1]) = [3, 3] @ [5, 5]"
proof -
  note defs = example_A_def example_Ainv_def example_B_def example_C_def
    is_mat_def mat_mul_def mat_transpose_def mat_identity_def mat_sub_def mat_vec_def
    inner_prod_def vsub_def upt_rec numeral_nat
  have inv: "is_inverse 2 example_A example_Ainv"
    by (simp add: is_inverse_def defs)
  have B: "is_mat 2 2 example_B" and C: "is_mat 2 2 example_C"
    by (simp_all add: defs)
  have op: "reduced_operator 2 example_Ainv example_B example_C
      = [[7 / 3, 2 / 3], [2 / 3, 10 / 3]]"
    by (simp add: reduced_operator_def defs)
  have rhs: "reduced_rhs 2 example_Ainv example_B [3, 3] [5, 5] = [3, 4]"
    by (simp add: reduced_rhs_def defs)
  have red: "mat_vec (reduced_operator 2 example_Ainv example_B example_C) [1, 1] = [3, 4]"
    unfolding op by (simp add: mat_vec_def inner_prod_def)
  have bs: "back_substitute example_Ainv example_B [3, 3] [1, 1] = [1, 0]"
    by (simp add: back_substitute_def defs)
  have "mat_vec (block_matrix 2 example_A example_B example_C) ([1, 0] @ [1, 1])
      = [3, 3] @ [5, 5]"
    using Schur_complement_identity [OF inv B C, of "[3, 3]" "[5, 5]" "[1, 0]" "[1, 1]"]
      red rhs bs by simp
  with inv B C op rhs red bs show ?thesis by simp
qed

end
